theory Spec2Isabelle
  imports Main
begin

section \<open>Data model of unique-ptr-ownership.cpp\<close>

text \<open>
  A \<open>Data\<close> object is identified by the order of its construction: the object with
  identity \<open>n\<close> is the \<open>n\<close>-th one built since the program started. The address that the
  constructor and the destructor print is not modelled, only which object they belong to.
\<close>

type_synonym obj = nat

record Data =
  m_datum :: string

text \<open>
  A \<open>std::unique_ptr<Data>\<close> is either null or owns one object. Dereferencing a null
  pointer, and touching an object whose destructor has already run, are undefined in C++;
  the model makes both an error value.
\<close>

type_synonym unique_ptr = "obj option"

datatype error = NullDeref | Dangling

text \<open>
  One event per output statement of the source. The events of \<open>consume\<close> and \<open>borrow\<close>
  also record which object was dereferenced, and the constructor's event records the
  datum the object was built with.
\<close>

datatype event =
    Ctor obj string          \<comment> \<open>line 10, \<open>Data::Data()\<close>\<close>
  | Dtor obj                 \<comment> \<open>line 12, \<open>Data::~Data()\<close>\<close>
  | ConsumerGot obj string   \<comment> \<open>line 24, \<open>[CONSUMER] got the data\<close>\<close>
  | BorrowerGot obj string   \<comment> \<open>line 32, \<open>[BORROWER] got the data\<close>\<close>
  | Producing                \<comment> \<open>line 58\<close>
  | Lending                  \<comment> \<open>line 61\<close>
  | MineAgain bool           \<comment> \<open>lines 64-65, prints \<open>m_data != nullptr\<close>\<close>
  | Dishonest                \<comment> \<open>lines 69-71\<close>
  | NullNow bool             \<comment> \<open>lines 78-79, prints \<open>m_data == nullptr\<close>\<close>
  | Banner string            \<comment> \<open>lines 94 and 98\<close>

record Borrower =
  m_moocher :: bool

record Producer =
  m_data :: unique_ptr

text \<open>
  The program state: the live \<open>Data\<close> objects, the number of objects built so far, the
  output so far (oldest first), and the two objects of \<open>main\<close> that have fields. The
  \<open>Producer\<close> holds references to the \<open>Borrower\<close> and the \<open>Consumer\<close> of \<open>main\<close>; there is
  one of each, so \<open>m_borrower\<close> is the field \<open>borrower\<close> of the state. \<open>Consumer\<close> has no
  fields.
\<close>

record state =
  heap :: "obj \<Rightarrow> Data option"
  fresh :: obj
  trace :: "event list"
  borrower :: Borrower
  producer :: Producer

section \<open>Operations\<close>

definition emit :: "event \<Rightarrow> state \<Rightarrow> state" where
  "emit e s = s\<lparr>trace := trace s @ [e]\<rparr>"

text \<open>\<open>Data::Data(datum)\<close> on a newly allocated object; returns the object.\<close>

definition Data_ctor :: "string \<Rightarrow> state \<Rightarrow> obj \<times> state" where
  "Data_ctor d s =
     (fresh s,
      emit (Ctor (fresh s) d)
        (s\<lparr>heap := (heap s)(fresh s \<mapsto> \<lparr>m_datum = d\<rparr>), fresh := Suc (fresh s)\<rparr>))"

definition make_unique :: "string \<Rightarrow> state \<Rightarrow> unique_ptr \<times> state" where
  "make_unique d s = (case Data_ctor d s of (a, s') \<Rightarrow> (Some a, s'))"

text \<open>\<open>Data::~Data()\<close> followed by the release of the object.\<close>

definition Data_dtor :: "obj \<Rightarrow> state \<Rightarrow> error + state" where
  "Data_dtor a s =
     (if heap s a = None then Inl Dangling
      else Inr ((emit (Dtor a) s)\<lparr>heap := (heap s)(a := None)\<rparr>))"

text \<open>The destructor of a \<open>unique_ptr\<close>: deletes the object it owns, if any.\<close>

definition unique_ptr_dtor :: "unique_ptr \<Rightarrow> state \<Rightarrow> error + state" where
  "unique_ptr_dtor p s = (case p of None \<Rightarrow> Inr s | Some a \<Rightarrow> Data_dtor a s)"

text \<open>\<open>Data::datum()\<close>.\<close>

definition datum :: "obj \<Rightarrow> state \<Rightarrow> error + string" where
  "datum a s = (case heap s a of None \<Rightarrow> Inl Dangling | Some d \<Rightarrow> Inr (m_datum d))"

text \<open>
  \<open>Consumer::consume\<close> takes the pointer by value: the parameter owns the object and its
  destructor runs when the call ends.
\<close>

definition consume :: "unique_ptr \<Rightarrow> state \<Rightarrow> error + state" where
  "consume data s =
     (case data of
        None \<Rightarrow> Inl NullDeref
      | Some a \<Rightarrow>
          (case datum a s of
             Inl e \<Rightarrow> Inl e
           | Inr d \<Rightarrow> unique_ptr_dtor data (emit (ConsumerGot a d) s)))"

text \<open>
  \<open>Borrower::borrow\<close> takes an rvalue reference to the caller's pointer: the model takes
  the caller's pointer and returns what the caller's pointer holds afterwards. When
  \<open>m_moocher\<close> is set the pointer is moved into the local \<open>data_is_mine_now\<close>, whose scope
  is the block of the \<open>if\<close>; its destructor runs at the end of that block.
\<close>

definition borrow :: "unique_ptr \<Rightarrow> state \<Rightarrow> error + (unique_ptr \<times> state)" where
  "borrow data s =
     (case data of
        None \<Rightarrow> Inl NullDeref
      | Some a \<Rightarrow>
          (case datum a s of
             Inl e \<Rightarrow> Inl e
           | Inr d \<Rightarrow>
               (let s1 = emit (BorrowerGot a d) s in
                if m_moocher (borrower s1) then
                  (let data_is_mine_now = data in
                   case unique_ptr_dtor data_is_mine_now s1 of
                     Inl e \<Rightarrow> Inl e
                   | Inr s2 \<Rightarrow> Inr (None, s2))
                else Inr (data, s1))))"

definition setBadWill :: "state \<Rightarrow> state" where
  "setBadWill s = s\<lparr>borrower := (borrower s)\<lparr>m_moocher := True\<rparr>\<rparr>"

definition set_m_data :: "unique_ptr \<Rightarrow> state \<Rightarrow> state" where
  "set_m_data p s = s\<lparr>producer := (producer s)\<lparr>m_data := p\<rparr>\<rparr>"

text \<open>
  \<open>Producer::produce\<close>. The move assignment of line 59 stores the new pointer and then
  deletes what \<open>m_data\<close> owned before. Line 75 moves \<open>m_data\<close> into the parameter of
  \<open>consume\<close>, which leaves \<open>m_data\<close> null before the body of \<open>consume\<close> runs.
\<close>

definition produce :: "state \<Rightarrow> error + state" where
  "produce s =
     (let s1 = emit Producing s in
      case make_unique ''Hello, World!'' s1 of (p, s2) \<Rightarrow>
      (case unique_ptr_dtor (m_data (producer s2)) (set_m_data p s2) of
         Inl e \<Rightarrow> Inl e
       | Inr s3 \<Rightarrow>
           (let s4 = emit Lending s3 in
            case borrow (m_data (producer s4)) s4 of
              Inl e \<Rightarrow> Inl e
            | Inr (p', s5) \<Rightarrow>
                (let s6 = set_m_data p' s5;
                     s7 = emit (MineAgain (m_data (producer s6) \<noteq> None)) s6 in
                 case (if m_data (producer s7) = None then Inr (emit Dishonest s7)
                       else consume (m_data (producer s7)) (set_m_data None s7)) of
                   Inl e \<Rightarrow> Inl e
                 | Inr s8 \<Rightarrow> Inr (emit (NullNow (m_data (producer s8) = None)) s8)))))"

text \<open>
  The state in which \<open>main\<close> starts: nothing built, nothing printed, \<open>m_moocher\<close> at its
  default member initialiser (line 45) and \<open>m_data\<close> default-constructed, that is null.
\<close>

definition Borrower_init :: Borrower where
  "Borrower_init = \<lparr>m_moocher = False\<rparr>"

definition Producer_init :: Producer where
  "Producer_init = \<lparr>m_data = None\<rparr>"

definition initial :: state where
  "initial =
     \<lparr>heap = (\<lambda>a. None), fresh = 0, trace = [],
      borrower = Borrower_init, producer = Producer_init\<rparr>"

definition first_banner :: string where
  "first_banner = CHR 0x0A # ''=== First run ===''"

definition second_banner :: string where
  "second_banner = CHR 0x0A # ''=== Second run ===''"

text \<open>
  \<open>main\<close> has no parameters, so it is a constant: the exit code and the final state, after
  the destructors of its locals have run (only the one of \<open>producer\<close> can do anything).
\<close>

definition main :: "error + (int \<times> state)" where
  "main =
     (let s0 = emit (Banner first_banner) initial in
      case produce s0 of
        Inl e \<Rightarrow> Inl e
      | Inr s1 \<Rightarrow>
          (let s2 = emit (Banner second_banner) s1;
               s3 = setBadWill s2 in
           case produce s3 of
             Inl e \<Rightarrow> Inl e
           | Inr s4 \<Rightarrow>
               (case unique_ptr_dtor (m_data (producer s4)) s4 of
                  Inl e \<Rightarrow> Inl e
                | Inr s5 \<Rightarrow> Inr (0, s5))))"

subsection \<open>Every sequence of calls a client can make\<close>

text \<open>
  \<open>m_data\<close> and \<open>m_moocher\<close> are private, so a client of the three classes can change them
  only through \<open>produce()\<close> and \<open>setBadWill()\<close>. \<open>run cs\<close> is the state after the calls
  \<open>cs\<close>, made in order on newly constructed objects.
\<close>

datatype call = Produce | SetBadWill

fun step :: "call \<Rightarrow> state \<Rightarrow> error + state" where
  "step Produce s = produce s"
| "step SetBadWill s = Inr (setBadWill s)"

fun exec :: "call list \<Rightarrow> state \<Rightarrow> error + state" where
  "exec [] s = Inr s"
| "exec (c # cs) s = (case step c s of Inl e \<Rightarrow> Inl e | Inr s' \<Rightarrow> exec cs s')"

definition run :: "call list \<Rightarrow> error + state" where
  "run cs = exec cs initial"

section \<open>Vocabulary for the properties\<close>

abbreviation hello :: string where
  "hello \<equiv> ''Hello, World!''"

text \<open>The events of a run in which the Borrower leaves the pointer alone.\<close>

definition honest_events :: "obj \<Rightarrow> event list" where
  "honest_events a =
     [Producing, Ctor a hello, Lending, BorrowerGot a hello, MineAgain True,
      ConsumerGot a hello, Dtor a, NullNow True]"

text \<open>The events of a run in which the Borrower moves the pointer away.\<close>

definition moocher_events :: "obj \<Rightarrow> event list" where
  "moocher_events a =
     [Producing, Ctor a hello, Lending, BorrowerGot a hello, Dtor a, MineAgain False,
      Dishonest, NullNow True]"

definition run_events :: "bool \<Rightarrow> obj \<Rightarrow> event list" where
  "run_events moocher a = (if moocher then moocher_events a else honest_events a)"

text \<open>
  The events of the calls \<open>cs\<close>, started with \<open>m_moocher = moocher\<close> when \<open>a\<close> objects
  have been built.
\<close>

fun events_of :: "bool \<Rightarrow> obj \<Rightarrow> call list \<Rightarrow> event list" where
  "events_of moocher a [] = []"
| "events_of moocher a (Produce # cs) = run_events moocher a @ events_of moocher (Suc a) cs"
| "events_of moocher a (SetBadWill # cs) = events_of True a cs"

text \<open>What an event does to the object \<open>a\<close>.\<close>

fun creates :: "obj \<Rightarrow> event \<Rightarrow> bool" where
  "creates a (Ctor b d) = (a = b)"
| "creates a _ = False"

fun destroys :: "obj \<Rightarrow> event \<Rightarrow> bool" where
  "destroys a (Dtor b) = (a = b)"
| "destroys a _ = False"

fun reads :: "obj \<Rightarrow> event \<Rightarrow> bool" where
  "reads a (ConsumerGot b d) = (a = b)"
| "reads a (BorrowerGot b d) = (a = b)"
| "reads a _ = False"

definition touches :: "obj \<Rightarrow> event \<Rightarrow> bool" where
  "touches a e = (creates a e \<or> destroys a e \<or> reads a e)"

text \<open>The payload an event reports, if it reports one.\<close>

fun payload :: "event \<Rightarrow> string option" where
  "payload (Ctor a d) = Some d"
| "payload (ConsumerGot a d) = Some d"
| "payload (BorrowerGot a d) = Some d"
| "payload _ = None"

text \<open>
  The life of the object \<open>a\<close> in an output: one construction, then possibly reads, then one
  destruction, and nothing about \<open>a\<close> before the construction or after the destruction.
\<close>

definition lifecycle :: "event list \<Rightarrow> obj \<Rightarrow> bool" where
  "lifecycle tr a =
     (\<exists>pre mid post d.
        tr = pre @ Ctor a d # mid @ Dtor a # post \<and>
        (\<forall>e\<in>set pre. \<not> touches a e) \<and>
        (\<forall>e\<in>set mid. \<not> creates a e \<and> \<not> destroys a e) \<and>
        (\<forall>e\<in>set post. \<not> touches a e))"

text \<open>Reading the outcome of a run that may have failed.\<close>

definition final_trace :: "error + state \<Rightarrow> event list option" where
  "final_trace r = (case r of Inl e \<Rightarrow> None | Inr s \<Rightarrow> Some (trace s))"

definition final_alive :: "obj \<Rightarrow> error + state \<Rightarrow> bool option" where
  "final_alive a r = (case r of Inl e \<Rightarrow> None | Inr s \<Rightarrow> Some (heap s a \<noteq> None))"

section \<open>One production run\<close>

lemma produce_honest:
  assumes "m_data (producer s) = None" and "\<not> m_moocher (borrower s)"
  shows "produce s =
           Inr (s\<lparr>heap := (heap s)(fresh s := None), fresh := Suc (fresh s),
                  trace := trace s @ honest_events (fresh s)\<rparr>)"
  using assms
  by (simp add: produce_def make_unique_def Data_ctor_def emit_def set_m_data_def
      unique_ptr_dtor_def borrow_def datum_def consume_def Data_dtor_def Let_def
      honest_events_def)

lemma produce_moocher:
  assumes "m_data (producer s) = None" and "m_moocher (borrower s)"
  shows "produce s =
           Inr (s\<lparr>heap := (heap s)(fresh s := None), fresh := Suc (fresh s),
                  trace := trace s @ moocher_events (fresh s)\<rparr>)"
  using assms
  by (simp add: produce_def make_unique_def Data_ctor_def emit_def set_m_data_def
      unique_ptr_dtor_def borrow_def datum_def consume_def Data_dtor_def Let_def
      moocher_events_def)

lemma produce_run:
  assumes "m_data (producer s) = None"
  shows "produce s =
           Inr (s\<lparr>heap := (heap s)(fresh s := None), fresh := Suc (fresh s),
                  trace := trace s @ run_events (m_moocher (borrower s)) (fresh s)\<rparr>)"
  using assms produce_honest [of s] produce_moocher [of s]
  by (cases "m_moocher (borrower s)") (simp_all add: run_events_def)

section \<open>Sequences of calls\<close>

lemma exec_char:
  assumes "m_data (producer s) = None"
  shows "\<exists>s'. exec cs s = Inr s' \<and> m_data (producer s') = None \<and>
           trace s' = trace s @ events_of (m_moocher (borrower s)) (fresh s) cs \<and>
           fresh s' = fresh s + count_list cs Produce \<and>
           m_moocher (borrower s') = (m_moocher (borrower s) \<or> SetBadWill \<in> set cs) \<and>
           (\<forall>a. heap s a = None \<longrightarrow> heap s' a = None)"
  using assms
proof (induction cs arbitrary: s)
  case Nil
  then show ?case by simp
next
  case (Cons c cs)
  show ?case
  proof (cases c)
    case Produce
    define s1 where
      "s1 = s\<lparr>heap := (heap s)(fresh s := None), fresh := Suc (fresh s),
               trace := trace s @ run_events (m_moocher (borrower s)) (fresh s)\<rparr>"
    have p: "produce s = Inr s1"
      using Cons.prems by (simp add: produce_run s1_def)
    have "m_data (producer s1) = None"
      using Cons.prems by (simp add: s1_def)
    from Cons.IH [OF this] obtain s' where
      "exec cs s1 = Inr s'" "m_data (producer s') = None"
      "trace s' = trace s1 @ events_of (m_moocher (borrower s1)) (fresh s1) cs"
      "fresh s' = fresh s1 + count_list cs Produce"
      "m_moocher (borrower s') = (m_moocher (borrower s1) \<or> SetBadWill \<in> set cs)"
      "\<forall>a. heap s1 a = None \<longrightarrow> heap s' a = None"
      by blast
    then show ?thesis
      using p Produce by (simp add: s1_def)
  next
    case SetBadWill
    have "m_data (producer (setBadWill s)) = None"
      using Cons.prems by (simp add: setBadWill_def)
    from Cons.IH [OF this] obtain s' where
      "exec cs (setBadWill s) = Inr s'" "m_data (producer s') = None"
      "trace s' = trace (setBadWill s) @
         events_of (m_moocher (borrower (setBadWill s))) (fresh (setBadWill s)) cs"
      "fresh s' = fresh (setBadWill s) + count_list cs Produce"
      "m_moocher (borrower s') = (m_moocher (borrower (setBadWill s)) \<or> SetBadWill \<in> set cs)"
      "\<forall>a. heap (setBadWill s) a = None \<longrightarrow> heap s' a = None"
      by blast
    then show ?thesis
      using SetBadWill by (simp add: setBadWill_def)
  qed
qed

lemma run_char:
  "\<exists>s. run cs = Inr s \<and> m_data (producer s) = None \<and>
        trace s = events_of False 0 cs \<and> fresh s = count_list cs Produce \<and>
        m_moocher (borrower s) = (SetBadWill \<in> set cs) \<and> (\<forall>a. heap s a = None)"
  using exec_char [of initial cs]
  by (simp add: run_def initial_def Borrower_init_def Producer_init_def)

lemma main_char:
  "\<exists>s. main = Inr (0, s) \<and>
        trace s = Banner first_banner # honest_events 0 @ Banner second_banner # moocher_events 1 \<and>
        fresh s = 2 \<and> (\<forall>a. heap s a = None) \<and> m_moocher (borrower s) \<and>
        m_data (producer s) = None"
  by (simp add: main_def Let_def produce_honest produce_moocher emit_def initial_def
      setBadWill_def unique_ptr_dtor_def Borrower_init_def Producer_init_def numeral_2_eq_2)

section \<open>Effects of the single operations\<close>

lemma consume_Inr:
  assumes "consume p t = Inr t'"
  shows "\<exists>a d. p = Some a \<and> heap t a = Some d \<and>
           t' = t\<lparr>heap := (heap t)(a := None),
                  trace := trace t @ [ConsumerGot a (m_datum d), Dtor a]\<rparr>"
  using assms
  by (auto simp: consume_def datum_def unique_ptr_dtor_def Data_dtor_def emit_def
      split: option.splits if_splits)

lemma consume_null: "(consume p t = Inl NullDeref) = (p = None)"
  by (auto simp: consume_def datum_def unique_ptr_dtor_def Data_dtor_def emit_def
      split: option.splits if_splits)

lemma borrow_null: "(borrow p t = Inl NullDeref) = (p = None)"
  by (auto simp: borrow_def datum_def unique_ptr_dtor_def Data_dtor_def emit_def Let_def
      split: option.splits if_splits)

lemma borrow_moocher:
  assumes "m_moocher (borrower t)" and "heap t a = Some d"
  shows "borrow (Some a) t =
           Inr (None, t\<lparr>heap := (heap t)(a := None),
                        trace := trace t @ [BorrowerGot a (m_datum d), Dtor a]\<rparr>)"
  using assms
  by (simp add: borrow_def datum_def unique_ptr_dtor_def Data_dtor_def emit_def Let_def)

lemma borrow_honest:
  assumes "\<not> m_moocher (borrower t)" and "heap t a = Some d"
  shows "borrow (Some a) t = Inr (Some a, t\<lparr>trace := trace t @ [BorrowerGot a (m_datum d)]\<rparr>)"
  using assms
  by (simp add: borrow_def datum_def emit_def Let_def)

section \<open>A run in which the Borrower claims the Resource\<close>

text \<open>
  C1, as the claim states it, fails. With \<open>m_moocher\<close> set, a production run prints the
  destructor of its object directly after the Borrower's report and before the Producer's
  check, and the object is no longer alive when \<open>produce()\<close> returns. So it is in the second
  run of \<open>main\<close>, where object 1 is destroyed before the Producer prints \<open>false\<close>.
\<close>

theorem claimed_resource_not_kept_alive:
  "final_trace (produce (setBadWill initial)) =
     Some [Producing, Ctor 0 hello, Lending, BorrowerGot 0 hello, Dtor 0,
           MineAgain False, Dishonest, NullNow True] \<and>
   final_alive 0 (produce (setBadWill initial)) = Some False \<and>
   final_trace (map_sum id snd main) =
     Some [Banner first_banner,
           Producing, Ctor 0 hello, Lending, BorrowerGot 0 hello, MineAgain True,
           ConsumerGot 0 hello, Dtor 0, NullNow True,
           Banner second_banner,
           Producing, Ctor 1 hello, Lending, BorrowerGot 1 hello, Dtor 1, MineAgain False,
           Dishonest, NullNow True] \<and>
   final_alive 1 (map_sum id snd main) = Some False"
  by (simp add: final_trace_def final_alive_def produce_moocher produce_honest
      moocher_events_def honest_events_def main_def Let_def emit_def unique_ptr_dtor_def
      setBadWill_def initial_def Producer_init_def Borrower_init_def)

text \<open>
  C1, amended. In a production run where the Borrower's disposition is claim, the Resource
  is moved into the local \<open>data_is_mine_now\<close> and destroyed when that local's block ends,
  inside the lending call: \<open>borrow\<close> itself emits the destruction event directly after
  its report and hands back a null pointer. In the run, the destruction event comes before
  the Producer's occupancy check, no object is alive when \<open>produce()\<close> returns, and the
  destructor of the Producer's slot has nothing left to destroy.
\<close>

theorem claimed_resource_destroyed_inside_borrow:
  "(m_moocher (borrower t) \<and> heap t a = Some d \<longrightarrow>
      borrow (Some a) t =
        Inr (None, t\<lparr>heap := (heap t)(a := None),
                     trace := trace t @ [BorrowerGot a (m_datum d), Dtor a]\<rparr>)) \<and>
   (\<exists>s. run cs = Inr s \<and>
      (m_moocher (borrower s) \<longrightarrow>
         (\<exists>s'. produce s = Inr s' \<and>
            trace s' = trace s @
              [Producing, Ctor (fresh s) hello, Lending, BorrowerGot (fresh s) hello,
               Dtor (fresh s), MineAgain False, Dishonest, NullNow True] \<and>
            (\<forall>b. heap s' b = None) \<and>
            unique_ptr_dtor (m_data (producer s')) s' = Inr s')))"
proof (intro conjI)
  show "m_moocher (borrower t) \<and> heap t a = Some d \<longrightarrow>
      borrow (Some a) t =
        Inr (None, t\<lparr>heap := (heap t)(a := None),
                     trace := trace t @ [BorrowerGot a (m_datum d), Dtor a]\<rparr>)"
    by (simp add: borrow_moocher)
next
  from run_char [of cs] obtain s where
    s: "run cs = Inr s" "m_data (producer s) = None" "\<forall>a. heap s a = None"
    by blast
  have "\<exists>s'. produce s = Inr s' \<and>
            trace s' = trace s @
              [Producing, Ctor (fresh s) hello, Lending, BorrowerGot (fresh s) hello,
               Dtor (fresh s), MineAgain False, Dishonest, NullNow True] \<and>
            (\<forall>b. heap s' b = None) \<and>
            unique_ptr_dtor (m_data (producer s')) s' = Inr s'"
    if "m_moocher (borrower s)"
    using that s by (simp add: produce_moocher moocher_events_def unique_ptr_dtor_def)
  with s(1) show "\<exists>s. run cs = Inr s \<and>
      (m_moocher (borrower s) \<longrightarrow>
         (\<exists>s'. produce s = Inr s' \<and>
            trace s' = trace s @
              [Producing, Ctor (fresh s) hello, Lending, BorrowerGot (fresh s) hello,
               Dtor (fresh s), MineAgain False, Dishonest, NullNow True] \<and>
            (\<forall>b. heap s' b = None) \<and>
            unique_ptr_dtor (m_data (producer s')) s' = Inr s'))"
    by blast
qed

theorem claimed_resource_destroyed_inside_borrow_witness:
  "m_moocher (borrower (snd (Data_ctor hello (setBadWill initial)))) \<and>
   heap (snd (Data_ctor hello (setBadWill initial))) 0 = Some \<lparr>m_datum = hello\<rparr> \<and>
   final_trace (map_sum id snd (borrow (Some 0) (snd (Data_ctor hello (setBadWill initial))))) =
     Some [Ctor 0 hello, BorrowerGot 0 hello, Dtor 0] \<and>
   (\<exists>s. run [SetBadWill] = Inr s \<and> m_moocher (borrower s) \<and>
      (\<exists>s'. produce s = Inr s' \<and>
         trace s' = [Producing, Ctor 0 hello, Lending, BorrowerGot 0 hello,
                     Dtor 0, MineAgain False, Dishonest, NullNow True] \<and>
         heap s' 0 = None))"
  using claimed_resource_destroyed_inside_borrow
    [of "snd (Data_ctor hello (setBadWill initial))" 0 "\<lparr>m_datum = hello\<rparr>" "[SetBadWill]"]
  by (simp add: run_def Data_ctor_def emit_def setBadWill_def initial_def final_trace_def
      Borrower_init_def Producer_init_def) blast

text \<open>
  C2. In every call to \<open>produce()\<close> in which the Borrower claims the Resource, the Producer's
  occupancy check finds the slot empty (it prints \<open>false\<close> for \<open>m_data != nullptr\<close> and
  takes the branch of the complaint) and \<open>Consumer::consume\<close> is not called: the call
  returns without an error and adds no event of the Consumer, whereas every call of
  \<open>consume\<close> either fails or adds the Consumer's report, and fails with a null dereference
  exactly when it is given a null pointer.
\<close>

theorem moocher_run_skips_consumer:
  "(\<exists>s. run cs = Inr s \<and>
      (m_moocher (borrower s) \<longrightarrow>
         (\<exists>s' new. produce s = Inr s' \<and> trace s' = trace s @ new \<and>
            MineAgain False \<in> set new \<and> MineAgain True \<notin> set new \<and> Dishonest \<in> set new \<and>
            (\<forall>b d. ConsumerGot b d \<notin> set new)))) \<and>
   (consume p t = Inr t' \<longrightarrow>
      (\<exists>b d. p = Some b \<and> trace t' = trace t @ [ConsumerGot b d, Dtor b])) \<and>
   ((consume p t = Inl NullDeref) = (p = None))"
proof (intro conjI)
  from run_char [of cs] obtain s where
    s: "run cs = Inr s" "m_data (producer s) = None"
    by blast
  have "\<exists>s' new. produce s = Inr s' \<and> trace s' = trace s @ new \<and>
            MineAgain False \<in> set new \<and> MineAgain True \<notin> set new \<and> Dishonest \<in> set new \<and>
            (\<forall>b d. ConsumerGot b d \<notin> set new)"
    if "m_moocher (borrower s)"
    using that s by (simp add: produce_moocher moocher_events_def)
  with s(1) show "\<exists>s. run cs = Inr s \<and>
      (m_moocher (borrower s) \<longrightarrow>
         (\<exists>s' new. produce s = Inr s' \<and> trace s' = trace s @ new \<and>
            MineAgain False \<in> set new \<and> MineAgain True \<notin> set new \<and> Dishonest \<in> set new \<and>
            (\<forall>b d. ConsumerGot b d \<notin> set new)))"
    by blast
next
  show "consume p t = Inr t' \<longrightarrow>
      (\<exists>b d. p = Some b \<and> trace t' = trace t @ [ConsumerGot b d, Dtor b])"
    using consume_Inr [of p t t'] by auto
next
  show "(consume p t = Inl NullDeref) = (p = None)"
    by (rule consume_null)
qed

theorem moocher_run_skips_consumer_witness:
  "(\<exists>s. run [Produce, SetBadWill] = Inr s \<and> m_moocher (borrower s) \<and>
      (\<exists>s' new. produce s = Inr s' \<and> trace s' = trace s @ new \<and>
         MineAgain False \<in> set new \<and> MineAgain True \<notin> set new \<and> Dishonest \<in> set new \<and>
         (\<forall>b d. ConsumerGot b d \<notin> set new))) \<and>
   consume (Some 0) (snd (Data_ctor hello initial)) =
     Inr ((snd (Data_ctor hello initial))
            \<lparr>heap := (\<lambda>a. None), trace := [Ctor 0 hello, ConsumerGot 0 hello, Dtor 0]\<rparr>) \<and>
   (\<exists>b d. Some (0::nat) = Some b \<and>
      [Ctor 0 hello, ConsumerGot 0 hello, Dtor 0] = [Ctor 0 hello] @ [ConsumerGot b d, Dtor b])"
proof -
  have c: "consume (Some 0) (snd (Data_ctor hello initial)) =
     Inr ((snd (Data_ctor hello initial))
            \<lparr>heap := (\<lambda>a. None), trace := [Ctor 0 hello, ConsumerGot 0 hello, Dtor 0]\<rparr>)"
    by (simp add: consume_def datum_def unique_ptr_dtor_def Data_dtor_def Data_ctor_def
        emit_def initial_def)
  have r: "run [Produce, SetBadWill] =
             Inr (setBadWill (initial\<lparr>heap := (heap initial)(fresh initial := None),
                    fresh := Suc (fresh initial),
                    trace := trace initial @ honest_events (fresh initial)\<rparr>))"
    by (simp add: run_def produce_honest initial_def Borrower_init_def Producer_init_def)
  have m: "m_moocher (borrower (setBadWill u))" for u
    by (simp add: setBadWill_def)
  show ?thesis
    using moocher_run_skips_consumer
      [of "[Produce, SetBadWill]" "Some 0" "snd (Data_ctor hello initial)"
          "(snd (Data_ctor hello initial))
            \<lparr>heap := (\<lambda>a. None), trace := [Ctor 0 hello, ConsumerGot 0 hello, Dtor 0]\<rparr>"]
      c r m
    by (simp add: Data_ctor_def emit_def initial_def)
qed

section \<open>The Producer's slot after a run\<close>

lemma produce_slot_empty:
  assumes "produce t = Inr t'"
  shows "m_data (producer t') = None"
  using assms
  by (auto simp: produce_def make_unique_def Data_ctor_def emit_def set_m_data_def
      unique_ptr_dtor_def borrow_def datum_def consume_def Data_dtor_def Let_def
      split: option.splits if_splits sum.splits prod.splits)

text \<open>
  C3. Whatever the state in which \<open>produce()\<close> is called and whichever branch it takes,
  \<open>m_data\<close> is null when it returns. After any sequence of calls the slot is therefore
  null and no object is alive, so the next \<open>produce()\<close> returns, builds its object into
  the empty slot, destroys nothing between the construction and the lending, ends with
  the report that \<open>m_data == nullptr\<close> holds, and leaves the slot null again.
\<close>

theorem slot_empty_after_produce:
  "(produce t = Inr t' \<longrightarrow> m_data (producer t') = None) \<and>
   (\<exists>s. run cs = Inr s \<and> m_data (producer s) = None \<and> (\<forall>a. heap s a = None) \<and>
      (\<exists>s' rest. produce s = Inr s' \<and> m_data (producer s') = None \<and>
         trace s' = trace s @ Producing # Ctor (fresh s) hello # Lending # rest @ [NullNow True]))"
proof (intro conjI)
  show "produce t = Inr t' \<longrightarrow> m_data (producer t') = None"
    by (simp add: produce_slot_empty)
next
  from run_char [of cs] obtain s where
    s: "run cs = Inr s" "m_data (producer s) = None" "\<forall>a. heap s a = None"
    by blast
  have "\<exists>s' rest. produce s = Inr s' \<and> m_data (producer s') = None \<and>
         trace s' = trace s @ Producing # Ctor (fresh s) hello # Lending # rest @ [NullNow True]"
  proof (cases "m_moocher (borrower s)")
    case True
    let ?s' = "s\<lparr>heap := (heap s)(fresh s := None), fresh := Suc (fresh s),
                  trace := trace s @ moocher_events (fresh s)\<rparr>"
    have "produce s = Inr ?s'"
      using s(2) True by (rule produce_moocher)
    moreover have "m_data (producer ?s') = None"
      using s(2) by simp
    moreover have "trace ?s' =
            trace s @ Producing # Ctor (fresh s) hello # Lending #
              [BorrowerGot (fresh s) hello, Dtor (fresh s), MineAgain False, Dishonest] @
              [NullNow True]"
      by (simp add: moocher_events_def)
    ultimately show ?thesis by blast
  next
    case False
    let ?s' = "s\<lparr>heap := (heap s)(fresh s := None), fresh := Suc (fresh s),
                  trace := trace s @ honest_events (fresh s)\<rparr>"
    have "produce s = Inr ?s'"
      using s(2) False by (rule produce_honest)
    moreover have "m_data (producer ?s') = None"
      using s(2) by simp
    moreover have "trace ?s' =
            trace s @ Producing # Ctor (fresh s) hello # Lending #
              [BorrowerGot (fresh s) hello, MineAgain True, ConsumerGot (fresh s) hello,
               Dtor (fresh s)] @ [NullNow True]"
      by (simp add: honest_events_def)
    ultimately show ?thesis by blast
  qed
  with s show "\<exists>s. run cs = Inr s \<and> m_data (producer s) = None \<and> (\<forall>a. heap s a = None) \<and>
      (\<exists>s' rest. produce s = Inr s' \<and> m_data (producer s') = None \<and>
         trace s' = trace s @ Producing # Ctor (fresh s) hello # Lending # rest @ [NullNow True])"
    by blast
qed

theorem slot_empty_after_produce_witness:
  "produce initial =
     Inr (initial\<lparr>heap := (heap initial)(fresh initial := None), fresh := Suc (fresh initial),
                   trace := trace initial @ honest_events (fresh initial)\<rparr>) \<and>
   m_data (producer (initial\<lparr>heap := (heap initial)(fresh initial := None),
                      fresh := Suc (fresh initial),
                      trace := trace initial @ honest_events (fresh initial)\<rparr>)) = None"
proof -
  have p: "produce initial =
     Inr (initial\<lparr>heap := (heap initial)(fresh initial := None), fresh := Suc (fresh initial),
                   trace := trace initial @ honest_events (fresh initial)\<rparr>)"
    by (simp add: produce_honest initial_def Borrower_init_def Producer_init_def)
  show ?thesis
    using p slot_empty_after_produce
      [of initial "initial\<lparr>heap := (heap initial)(fresh initial := None),
                    fresh := Suc (fresh initial),
                    trace := trace initial @ honest_events (fresh initial)\<rparr>" "[Produce]"]
    by simp
qed

section \<open>A run in which the Borrower returns the Resource untouched\<close>

text \<open>
  C4. In every call to \<open>produce()\<close> with \<open>m_moocher\<close> unset, the Consumer reports the
  payload of the very object that this run built, with the datum it was built with, and
  \<open>m_data\<close> is null right after the transfer: \<open>consume\<close> does not touch the Producer, so a
  slot nulled by the move into its parameter is still null when it returns, the Producer
  then reports that \<open>m_data == nullptr\<close> holds, and the slot is null when \<open>produce()\<close>
  returns.
\<close>

theorem honest_run_reaches_consumer:
  "(\<exists>s. run cs = Inr s \<and>
      (\<not> m_moocher (borrower s) \<longrightarrow>
         (\<exists>s' a d. produce s = Inr s' \<and>
            trace s' = trace s @
              [Producing, Ctor a d, Lending, BorrowerGot a d, MineAgain True,
               ConsumerGot a d, Dtor a, NullNow True] \<and>
            a = fresh s \<and> d = hello \<and> m_data (producer s') = None))) \<and>
   (consume p (set_m_data None t) = Inr t' \<longrightarrow> m_data (producer t') = None)"
proof (intro conjI)
  from run_char [of cs] obtain s where
    s: "run cs = Inr s" "m_data (producer s) = None"
    by blast
  have "\<exists>s' a d. produce s = Inr s' \<and>
            trace s' = trace s @
              [Producing, Ctor a d, Lending, BorrowerGot a d, MineAgain True,
               ConsumerGot a d, Dtor a, NullNow True] \<and>
            a = fresh s \<and> d = hello \<and> m_data (producer s') = None"
    if "\<not> m_moocher (borrower s)"
    using that s by (simp add: produce_honest honest_events_def)
  with s(1) show "\<exists>s. run cs = Inr s \<and>
      (\<not> m_moocher (borrower s) \<longrightarrow>
         (\<exists>s' a d. produce s = Inr s' \<and>
            trace s' = trace s @
              [Producing, Ctor a d, Lending, BorrowerGot a d, MineAgain True,
               ConsumerGot a d, Dtor a, NullNow True] \<and>
            a = fresh s \<and> d = hello \<and> m_data (producer s') = None))"
    by blast
next
  show "consume p (set_m_data None t) = Inr t' \<longrightarrow> m_data (producer t') = None"
    using consume_Inr [of p "set_m_data None t" t'] by (auto simp: set_m_data_def)
qed

theorem honest_run_reaches_consumer_witness:
  "(\<exists>s. run [] = Inr s \<and> \<not> m_moocher (borrower s) \<and>
      (\<exists>s'. produce s = Inr s' \<and>
         trace s' =
           [Producing, Ctor 0 hello, Lending, BorrowerGot 0 hello, MineAgain True,
            ConsumerGot 0 hello, Dtor 0, NullNow True] \<and>
         m_data (producer s') = None)) \<and>
   consume (Some 0) (set_m_data None (snd (Data_ctor hello initial))) =
     Inr ((snd (Data_ctor hello initial))
            \<lparr>heap := (\<lambda>a. None), trace := [Ctor 0 hello, ConsumerGot 0 hello, Dtor 0]\<rparr>) \<and>
   m_data (producer ((snd (Data_ctor hello initial))
            \<lparr>heap := (\<lambda>a. None), trace := [Ctor 0 hello, ConsumerGot 0 hello, Dtor 0]\<rparr>)) =
     None"
proof -
  have c: "consume (Some 0) (set_m_data None (snd (Data_ctor hello initial))) =
     Inr ((snd (Data_ctor hello initial))
            \<lparr>heap := (\<lambda>a. None), trace := [Ctor 0 hello, ConsumerGot 0 hello, Dtor 0]\<rparr>)"
    by (simp add: consume_def datum_def unique_ptr_dtor_def Data_dtor_def Data_ctor_def
        emit_def initial_def set_m_data_def Producer_init_def)
  show ?thesis
    using c honest_run_reaches_consumer
      [of "[]" "Some 0" "snd (Data_ctor hello initial)"
          "(snd (Data_ctor hello initial))
            \<lparr>heap := (\<lambda>a. None), trace := [Ctor 0 hello, ConsumerGot 0 hello, Dtor 0]\<rparr>"]
    by (simp add: run_def initial_def Borrower_init_def)
qed

section \<open>A lending call that does not claim\<close>

text \<open>
  C6. A lending call with \<open>m_moocher\<close> unset, on a pointer to a live object, returns the
  pointer to the caller as it was, and the state differs from the one before only by the
  Borrower's report of the object's datum: the object, the other objects, the Borrower and
  the Producer are unchanged.
\<close>

theorem honest_borrow_only_reports:
  assumes "\<not> m_moocher (borrower t)" and "heap t a = Some d"
  shows "borrow (Some a) t = Inr (Some a, t\<lparr>trace := trace t @ [BorrowerGot a (m_datum d)]\<rparr>)"
  using assms by (rule borrow_honest)

theorem honest_borrow_only_reports_witness:
  "\<not> m_moocher (borrower (snd (Data_ctor hello initial))) \<and>
   heap (snd (Data_ctor hello initial)) 0 = Some \<lparr>m_datum = hello\<rparr> \<and>
   borrow (Some 0) (snd (Data_ctor hello initial)) =
     Inr (Some 0, (snd (Data_ctor hello initial))\<lparr>trace := [Ctor 0 hello, BorrowerGot 0 hello]\<rparr>)"
proof -
  have m: "\<not> m_moocher (borrower (snd (Data_ctor hello initial)))"
    by (simp add: Data_ctor_def emit_def initial_def Borrower_init_def)
  have h: "heap (snd (Data_ctor hello initial)) 0 = Some \<lparr>m_datum = hello\<rparr>"
    by (simp add: Data_ctor_def emit_def initial_def)
  show ?thesis
    using m h honest_borrow_only_reports [OF m h]
    by (simp add: Data_ctor_def emit_def initial_def)
qed

section \<open>The life of each object\<close>

lemma run_events_touch:
  assumes "e \<in> set (run_events b n)" and "touches a e"
  shows "a = n"
  using assms
  by (auto simp: run_events_def honest_events_def moocher_events_def touches_def
      split: if_splits)

lemma events_of_touch:
  assumes "e \<in> set (events_of b n cs)" and "touches a e"
  shows "n \<le> a \<and> a < n + count_list cs Produce"
  using assms
proof (induction b n cs rule: events_of.induct)
  case (1 moocher a')
  then show ?case by simp
next
  case (2 moocher a' cs)
  then show ?case
    using run_events_touch [of e moocher a' a] by fastforce
next
  case (3 moocher a' cs)
  then show ?case by simp
qed

lemma lifecycle_run_events:
  assumes "\<forall>e\<in>set post. \<not> touches a e"
  shows "lifecycle (run_events b a @ post) a"
proof (cases b)
  case True
  have "run_events b a @ post =
          [Producing] @ Ctor a hello # [Lending, BorrowerGot a hello] @ Dtor a #
            ([MineAgain False, Dishonest, NullNow True] @ post)"
    using True by (simp add: run_events_def moocher_events_def)
  moreover have "\<forall>e\<in>set [Producing]. \<not> touches a e"
    by (simp add: touches_def)
  moreover have "\<forall>e\<in>set [Lending, BorrowerGot a hello]. \<not> creates a e \<and> \<not> destroys a e"
    by simp
  moreover have "\<forall>e\<in>set ([MineAgain False, Dishonest, NullNow True] @ post). \<not> touches a e"
    using assms by (simp add: touches_def)
  ultimately show ?thesis
    unfolding lifecycle_def by blast
next
  case False
  have "run_events b a @ post =
          [Producing] @ Ctor a hello #
            [Lending, BorrowerGot a hello, MineAgain True, ConsumerGot a hello] @ Dtor a #
            ([NullNow True] @ post)"
    using False by (simp add: run_events_def honest_events_def)
  moreover have "\<forall>e\<in>set [Producing]. \<not> touches a e"
    by (simp add: touches_def)
  moreover have "\<forall>e\<in>set [Lending, BorrowerGot a hello, MineAgain True, ConsumerGot a hello].
                   \<not> creates a e \<and> \<not> destroys a e"
    by simp
  moreover have "\<forall>e\<in>set ([NullNow True] @ post). \<not> touches a e"
    using assms by (simp add: touches_def)
  ultimately show ?thesis
    unfolding lifecycle_def by blast
qed

lemma lifecycle_prepend:
  assumes "\<forall>e\<in>set xs. \<not> touches a e" and "lifecycle tr a"
  shows "lifecycle (xs @ tr) a"
proof -
  from assms(2) obtain pre mid post d where
    tr: "tr = pre @ Ctor a d # mid @ Dtor a # post" and
    pre: "\<forall>e\<in>set pre. \<not> touches a e" and
    mid: "\<forall>e\<in>set mid. \<not> creates a e \<and> \<not> destroys a e" and
    post: "\<forall>e\<in>set post. \<not> touches a e"
    unfolding lifecycle_def by blast
  have "xs @ tr = (xs @ pre) @ Ctor a d # mid @ Dtor a # post"
    using tr by simp
  moreover have "\<forall>e\<in>set (xs @ pre). \<not> touches a e"
    using assms(1) pre by auto
  ultimately show ?thesis
    unfolding lifecycle_def using mid post by blast
qed

lemma lifecycle_events_of:
  assumes "n \<le> a" and "a < n + count_list cs Produce"
  shows "lifecycle (events_of b n cs) a"
  using assms
proof (induction b n cs rule: events_of.induct)
  case (1 moocher a')
  then show ?case by simp
next
  case (2 moocher a' cs)
  show ?case
  proof (cases "a = a'")
    case True
    have "\<forall>e\<in>set (events_of moocher (Suc a') cs). \<not> touches a e"
      using events_of_touch [of _ moocher "Suc a'" cs a] True by auto
    then show ?thesis
      using True lifecycle_run_events [of "events_of moocher (Suc a') cs" a moocher] by simp
  next
    case False
    then have "lifecycle (events_of moocher (Suc a') cs) a"
      using 2 by simp
    moreover have "\<forall>e\<in>set (run_events moocher a'). \<not> touches a e"
      using run_events_touch [of _ moocher a' a] False by auto
    ultimately show ?thesis
      using lifecycle_prepend by simp
  qed
next
  case (3 moocher a' cs)
  then show ?case by simp
qed

lemma lifecycle_counts:
  assumes "lifecycle tr a"
  shows "length (filter (creates a) tr) = 1 \<and> length (filter (destroys a) tr) = 1"
proof -
  from assms obtain pre mid post d where
    tr: "tr = pre @ Ctor a d # mid @ Dtor a # post" and
    pre: "\<forall>e\<in>set pre. \<not> touches a e" and
    mid: "\<forall>e\<in>set mid. \<not> creates a e \<and> \<not> destroys a e" and
    post: "\<forall>e\<in>set post. \<not> touches a e"
    unfolding lifecycle_def by blast
  have "filter (creates a) pre = []" "filter (destroys a) pre = []"
    "filter (creates a) mid = []" "filter (destroys a) mid = []"
    "filter (creates a) post = []" "filter (destroys a) post = []"
    using pre mid post by (auto simp: touches_def filter_empty_conv)
  then show ?thesis
    using tr by simp
qed

lemma lifecycle_main:
  assumes "a < 2"
  shows "lifecycle (Banner first_banner # honest_events 0 @ Banner second_banner # moocher_events 1) a"
proof -
  from assms consider "a = 0" | "a = 1" by linarith
  then show ?thesis
  proof cases
    case 1
    have "\<forall>e\<in>set (Banner second_banner # moocher_events 1). \<not> touches 0 e"
      by (simp add: moocher_events_def touches_def)
    then have "lifecycle (run_events False 0 @ Banner second_banner # moocher_events 1) 0"
      by (rule lifecycle_run_events)
    moreover have "\<forall>e\<in>set [Banner first_banner]. \<not> touches 0 e"
      by (simp add: touches_def)
    ultimately have "lifecycle ([Banner first_banner] @ run_events False 0 @
                       Banner second_banner # moocher_events 1) 0"
      by (rule lifecycle_prepend [rotated])
    then show ?thesis
      using 1 by (simp add: run_events_def)
  next
    case 2
    have "lifecycle (run_events True 1 @ []) 1"
      by (rule lifecycle_run_events) simp
    moreover have "\<forall>e\<in>set (Banner first_banner # honest_events 0 @ [Banner second_banner]).
                     \<not> touches 1 e"
      by (simp add: honest_events_def touches_def)
    ultimately have "lifecycle ((Banner first_banner # honest_events 0 @ [Banner second_banner]) @
                       run_events True 1 @ []) 1"
      by (rule lifecycle_prepend [rotated])
    then show ?thesis
      using 2 by (simp add: run_events_def)
  qed
qed

lemma main_untouched:
  assumes "\<not> a < 2"
    and "e \<in> set (Banner first_banner # honest_events 0 @ Banner second_banner # moocher_events 1)"
  shows "\<not> touches a e"
  using assms by (auto simp: honest_events_def moocher_events_def touches_def)

text \<open>
  C5. After any sequence of calls, and at the end of \<open>main\<close>, every object built so far
  has in the output exactly one construction event and exactly one destruction event; the
  destruction comes after the construction, every read of the object's payload lies
  between the two, and nothing about the object comes before its construction or after
  its destruction. No event mentions an object that has not been built.
\<close>

theorem every_object_built_once_destroyed_once:
  "(\<exists>s. run cs = Inr s \<and>
      (\<forall>a. if a < fresh s
           then lifecycle (trace s) a \<and>
                length (filter (creates a) (trace s)) = 1 \<and>
                length (filter (destroys a) (trace s)) = 1
           else \<forall>e\<in>set (trace s). \<not> touches a e)) \<and>
   (\<exists>s. main = Inr (0, s) \<and>
      (\<forall>a. if a < fresh s
           then lifecycle (trace s) a \<and>
                length (filter (creates a) (trace s)) = 1 \<and>
                length (filter (destroys a) (trace s)) = 1
           else \<forall>e\<in>set (trace s). \<not> touches a e))"
proof (intro conjI)
  from run_char [of cs] obtain s where
    s: "run cs = Inr s" "trace s = events_of False 0 cs" "fresh s = count_list cs Produce"
    by blast
  have "lifecycle (trace s) a \<and>
        length (filter (creates a) (trace s)) = 1 \<and>
        length (filter (destroys a) (trace s)) = 1" if "a < fresh s" for a
    using that s lifecycle_events_of [of 0 a cs False] lifecycle_counts [of "trace s" a]
    by simp
  moreover have "\<forall>e\<in>set (trace s). \<not> touches a e" if "\<not> a < fresh s" for a
    using that s events_of_touch [of _ False 0 cs a] by auto
  ultimately show "\<exists>s. run cs = Inr s \<and>
      (\<forall>a. if a < fresh s
           then lifecycle (trace s) a \<and>
                length (filter (creates a) (trace s)) = 1 \<and>
                length (filter (destroys a) (trace s)) = 1
           else \<forall>e\<in>set (trace s). \<not> touches a e)"
    using s(1) by auto
next
  from main_char obtain s where
    s: "main = Inr (0, s)"
    "trace s = Banner first_banner # honest_events 0 @ Banner second_banner # moocher_events 1"
    "fresh s = 2"
    by blast
  have "lifecycle (trace s) a \<and>
        length (filter (creates a) (trace s)) = 1 \<and>
        length (filter (destroys a) (trace s)) = 1" if "a < fresh s" for a
    using that s lifecycle_main [of a] lifecycle_counts [of "trace s" a]
    by simp
  moreover have "\<forall>e\<in>set (trace s). \<not> touches a e" if "\<not> a < fresh s" for a
    using that s main_untouched [of a] by auto
  ultimately show "\<exists>s. main = Inr (0, s) \<and>
      (\<forall>a. if a < fresh s
           then lifecycle (trace s) a \<and>
                length (filter (creates a) (trace s)) = 1 \<and>
                length (filter (destroys a) (trace s)) = 1
           else \<forall>e\<in>set (trace s). \<not> touches a e)"
    using s(1) by auto
qed

theorem every_object_built_once_destroyed_once_witness:
  "\<exists>s. run [Produce, SetBadWill, Produce] = Inr s \<and>
       (1::nat) < fresh s \<and>
       length (filter (creates 1) (trace s)) = 1 \<and>
       length (filter (destroys 1) (trace s)) = 1 \<and>
       (\<exists>pre mid post d. trace s = pre @ Ctor 1 d # mid @ Dtor 1 # post \<and>
          filter (touches 1) pre = [] \<and> filter (creates 1) mid = [] \<and>
          filter (destroys 1) mid = [] \<and> filter (touches 1) post = []) \<and>
       \<not> (5::nat) < fresh s \<and> filter (touches 5) (trace s) = []"
proof -
  from every_object_built_once_destroyed_once [of "[Produce, SetBadWill, Produce]"]
  obtain s where
    s: "run [Produce, SetBadWill, Produce] = Inr s" and
    a: "\<forall>a. if a < fresh s
           then lifecycle (trace s) a \<and>
                length (filter (creates a) (trace s)) = 1 \<and>
                length (filter (destroys a) (trace s)) = 1
           else \<forall>e\<in>set (trace s). \<not> touches a e"
    by blast
  have "run [Produce, SetBadWill, Produce] =
          Inr (initial\<lparr>fresh := 2, trace := honest_events 0 @ moocher_events 1,
                 borrower := \<lparr>m_moocher = True\<rparr>\<rparr>)"
    by (simp add: run_def produce_honest produce_moocher setBadWill_def initial_def
        Borrower_init_def Producer_init_def numeral_2_eq_2)
  with s have f: "fresh s = 2"
    by auto
  from spec [OF a, of 1] f have "lifecycle (trace s) 1 \<and>
                length (filter (creates 1) (trace s)) = 1 \<and>
                length (filter (destroys 1) (trace s)) = 1"
    by simp
  moreover from spec [OF a, of 5] f have "\<forall>e\<in>set (trace s). \<not> touches 5 e"
    by simp
  ultimately show ?thesis
    using s f unfolding lifecycle_def by (simp add: filter_empty_conv) blast
qed

section \<open>The program\<close>

text \<open>
  C7. \<open>main\<close> takes no arguments. It performs two production runs and no more: the first
  with \<open>m_moocher\<close> at its default \<open>false\<close>, the second after \<open>setBadWill()\<close> has set it;
  both return, and \<open>main\<close> exits with code 0. Its whole output is the one given here.
\<close>

theorem main_two_runs_exit_zero:
  "\<exists>s1 s2.
     \<not> m_moocher (borrower (emit (Banner first_banner) initial)) \<and>
     produce (emit (Banner first_banner) initial) = Inr s1 \<and>
     m_moocher (borrower (setBadWill (emit (Banner second_banner) s1))) \<and>
     produce (setBadWill (emit (Banner second_banner) s1)) = Inr s2 \<and>
     main = Inr (0, s2) \<and>
     trace s2 =
       [Banner first_banner,
        Producing, Ctor 0 hello, Lending, BorrowerGot 0 hello, MineAgain True,
        ConsumerGot 0 hello, Dtor 0, NullNow True,
        Banner second_banner,
        Producing, Ctor 1 hello, Lending, BorrowerGot 1 hello, Dtor 1, MineAgain False,
        Dishonest, NullNow True] \<and>
     count_list (trace s2) Producing = 2"
  by (simp add: main_def Let_def produce_honest produce_moocher emit_def initial_def
      setBadWill_def unique_ptr_dtor_def Borrower_init_def Producer_init_def
      honest_events_def moocher_events_def)

section \<open>The Borrower's disposition\<close>

lemma produce_borrower:
  assumes "produce t = Inr t'"
  shows "borrower t' = borrower t"
  using assms
  by (auto simp: produce_def make_unique_def Data_ctor_def emit_def set_m_data_def
      unique_ptr_dtor_def borrow_def datum_def consume_def Data_dtor_def Let_def
      split: option.splits if_splits sum.splits prod.splits)

lemma borrow_borrower:
  assumes "borrow p t = Inr (p', t')"
  shows "borrower t' = borrower t"
  using assms
  by (auto simp: borrow_def datum_def unique_ptr_dtor_def Data_dtor_def emit_def Let_def
      split: option.splits if_splits)

lemma step_moocher:
  assumes "step c t = Inr t'" and "m_moocher (borrower t)"
  shows "m_moocher (borrower t')"
  using assms by (cases c) (auto simp: produce_borrower setBadWill_def)

lemma exec_moocher:
  assumes "exec cs t = Inr t'" and "m_moocher (borrower t)"
  shows "m_moocher (borrower t')"
  using assms
proof (induction cs arbitrary: t)
  case Nil
  then show ?case by simp
next
  case (Cons c cs)
  then show ?case
    by (auto split: sum.splits dest: step_moocher)
qed

text \<open>
  C8. \<open>m_moocher\<close> starts as \<open>false\<close> and \<open>setBadWill()\<close> sets it. No call of \<open>produce()\<close>
  or \<open>setBadWill()\<close> unsets it, and \<open>borrow\<close> and \<open>consume\<close> leave the Borrower as it was;
  so it is still set after any calls that follow a \<open>setBadWill()\<close>. Every lending call made
  while it is set, on a live object, hands back a null pointer, and every \<open>produce()\<close>
  called after a \<open>setBadWill()\<close> is a run in which the Borrower claims the Resource.
\<close>

theorem moocher_is_one_way:
  "\<not> m_moocher Borrower_init \<and> \<not> m_moocher (borrower initial) \<and>
   m_moocher (borrower (setBadWill t)) \<and>
   (m_moocher (borrower t1) \<and> step c t1 = Inr t1' \<longrightarrow> m_moocher (borrower t1')) \<and>
   (borrow p t2 = Inr (p', t2') \<longrightarrow> borrower t2' = borrower t2) \<and>
   (consume q t3 = Inr t3' \<longrightarrow> borrower t3' = borrower t3) \<and>
   (exec es (setBadWill t4) = Inr t4' \<longrightarrow> m_moocher (borrower t4')) \<and>
   (m_moocher (borrower t5) \<and> heap t5 a = Some d \<longrightarrow>
      (\<exists>t5'. borrow (Some a) t5 = Inr (None, t5'))) \<and>
   (\<exists>s. run (cs @ SetBadWill # ds) = Inr s \<and> m_moocher (borrower s) \<and>
      (\<exists>s'. produce s = Inr s' \<and>
         trace s' = trace s @
           [Producing, Ctor (fresh s) hello, Lending, BorrowerGot (fresh s) hello,
            Dtor (fresh s), MineAgain False, Dishonest, NullNow True]))"
proof (intro conjI)
  show "\<not> m_moocher Borrower_init"
    by (simp add: Borrower_init_def)
  show "\<not> m_moocher (borrower initial)"
    by (simp add: initial_def Borrower_init_def)
  show "m_moocher (borrower (setBadWill t))"
    by (simp add: setBadWill_def)
  show "m_moocher (borrower t1) \<and> step c t1 = Inr t1' \<longrightarrow> m_moocher (borrower t1')"
    using step_moocher by blast
  show "borrow p t2 = Inr (p', t2') \<longrightarrow> borrower t2' = borrower t2"
    using borrow_borrower by blast
  show "consume q t3 = Inr t3' \<longrightarrow> borrower t3' = borrower t3"
    using consume_Inr [of q t3 t3'] by auto
  show "exec es (setBadWill t4) = Inr t4' \<longrightarrow> m_moocher (borrower t4')"
    using exec_moocher [of es "setBadWill t4" t4'] by (simp add: setBadWill_def)
  show "m_moocher (borrower t5) \<and> heap t5 a = Some d \<longrightarrow>
      (\<exists>t5'. borrow (Some a) t5 = Inr (None, t5'))"
    by (simp add: borrow_moocher)
  from run_char [of "cs @ SetBadWill # ds"] obtain s where
    s: "run (cs @ SetBadWill # ds) = Inr s" "m_data (producer s) = None"
       "m_moocher (borrower s)"
    by auto
  then have "produce s = Inr (s\<lparr>heap := (heap s)(fresh s := None), fresh := Suc (fresh s),
                  trace := trace s @ moocher_events (fresh s)\<rparr>)"
    by (simp add: produce_moocher)
  then show "\<exists>s. run (cs @ SetBadWill # ds) = Inr s \<and> m_moocher (borrower s) \<and>
      (\<exists>s'. produce s = Inr s' \<and>
         trace s' = trace s @
           [Producing, Ctor (fresh s) hello, Lending, BorrowerGot (fresh s) hello,
            Dtor (fresh s), MineAgain False, Dishonest, NullNow True])"
    using s by (simp add: moocher_events_def)
qed

theorem moocher_is_one_way_witness:
  "m_moocher (borrower (setBadWill initial)) \<and>
   (\<exists>t'. step Produce (setBadWill initial) = Inr t' \<and> m_moocher (borrower t')) \<and>
   (\<exists>p' t'. borrow (Some 0) (snd (Data_ctor hello (setBadWill initial))) = Inr (p', t') \<and>
      borrower t' = borrower (snd (Data_ctor hello (setBadWill initial)))) \<and>
   (\<exists>t'. consume (Some 0) (snd (Data_ctor hello (setBadWill initial))) = Inr t' \<and>
      borrower t' = borrower (snd (Data_ctor hello (setBadWill initial)))) \<and>
   (\<exists>t'. exec [Produce] (setBadWill initial) = Inr t' \<and> m_moocher (borrower t')) \<and>
   m_moocher (borrower (snd (Data_ctor hello (setBadWill initial)))) \<and>
   heap (snd (Data_ctor hello (setBadWill initial))) 0 = Some \<lparr>m_datum = hello\<rparr> \<and>
   (\<exists>t'. borrow (Some 0) (snd (Data_ctor hello (setBadWill initial))) = Inr (None, t'))"
proof -
  let ?m = "setBadWill initial"
  let ?b = "snd (Data_ctor hello ?m)"
  have m: "m_moocher (borrower ?m)" "m_data (producer ?m) = None"
    by (simp_all add: setBadWill_def initial_def Producer_init_def)
  have b: "m_moocher (borrower ?b)" "heap ?b 0 = Some \<lparr>m_datum = hello\<rparr>"
    by (simp_all add: Data_ctor_def emit_def setBadWill_def initial_def)
  obtain x where x: "produce ?m = Inr x"
    using produce_moocher [OF m(2) m(1)] by blast
  obtain y where y: "borrow (Some 0) ?b = Inr (None, y)"
    using borrow_moocher [OF b] by blast
  obtain z where z: "consume (Some 0) ?b = Inr z"
    using b(2) by (simp add: consume_def datum_def unique_ptr_dtor_def Data_dtor_def emit_def)
  have e: "exec [Produce] ?m = Inr x" "step Produce ?m = Inr x"
    using x by simp_all
  show ?thesis
    using m b x y z e
      moocher_is_one_way [where ?t1.0 = ?m and c = Produce and ?t1' = x
        and p = "Some 0" and ?t2.0 = ?b and p' = None and ?t2' = y
        and q = "Some 0" and ?t3.0 = ?b and ?t3' = z
        and es = "[Produce]" and ?t4.0 = initial and ?t4' = x
        and ?t5.0 = ?b and a = 0 and d = "\<lparr>m_datum = hello\<rparr>"]
    by simp
qed

section \<open>Null pointers\<close>

lemma produce_no_null: "produce t \<noteq> Inl NullDeref"
  by (auto simp: produce_def make_unique_def Data_ctor_def emit_def set_m_data_def
      unique_ptr_dtor_def borrow_def datum_def consume_def Data_dtor_def Let_def
      split: option.splits if_splits sum.splits prod.splits)

text \<open>
  C9. No sequence of calls and no run of \<open>main\<close> fails. \<open>borrow\<close> and \<open>consume\<close> fail
  with a null dereference exactly when they are given a null pointer, and \<open>produce()\<close>
  never fails so, whatever the state it is called in: it lends the pointer it has just
  built and hands to the Consumer only a pointer it has found non-null.
\<close>

theorem no_null_dereference:
  "(\<exists>s. run cs = Inr s) \<and> (\<exists>s. main = Inr (0, s)) \<and>
   produce t \<noteq> Inl NullDeref \<and>
   ((borrow p t = Inl NullDeref) = (p = None)) \<and>
   ((consume p t = Inl NullDeref) = (p = None))"
  using run_char [of cs] main_char produce_no_null [of t] borrow_null [of p t]
    consume_null [of p t]
  by blast

theorem no_null_dereference_witness:
  "(\<exists>s. run [Produce, SetBadWill, Produce] = Inr s) \<and>
   produce initial \<noteq> Inl NullDeref \<and>
   borrow None initial = Inl NullDeref \<and>
   consume None initial = Inl NullDeref"
  using no_null_dereference [of "[Produce, SetBadWill, Produce]" initial None]
  by simp

section \<open>The payload\<close>

lemma produce_payloads:
  assumes "produce t = Inr t'"
  shows "\<exists>new. trace t' = trace t @ new \<and> (\<exists>a. Ctor a hello \<in> set new) \<and>
           (\<forall>e\<in>set new. \<forall>d. payload e = Some d \<longrightarrow> d = hello)"
  using assms
  by (auto simp: produce_def make_unique_def Data_ctor_def emit_def set_m_data_def
      unique_ptr_dtor_def borrow_def datum_def consume_def Data_dtor_def Let_def
      split: option.splits if_splits sum.splits prod.splits)

lemma events_of_payload:
  assumes "e \<in> set (events_of b n cs)" and "payload e = Some d"
  shows "d = hello"
  using assms
  by (induction b n cs rule: events_of.induct)
    (auto simp: run_events_def honest_events_def moocher_events_def split: if_splits)

text \<open>
  C10. Whatever the state \<open>produce()\<close> is called in, if it returns it has built an object
  with the datum \<open>Hello, World!\<close>, and every payload in the events it added is that
  string. So every payload built or reported after any sequence of calls, and in the
  output of \<open>main\<close>, is \<open>Hello, World!\<close>.
\<close>

theorem payload_always_hello:
  "(produce t = Inr t' \<longrightarrow>
      (\<exists>new. trace t' = trace t @ new \<and> (\<exists>a. Ctor a hello \<in> set new) \<and>
         (\<forall>e\<in>set new. \<forall>d. payload e = Some d \<longrightarrow> d = hello))) \<and>
   (\<exists>s. run cs = Inr s \<and> (\<forall>e\<in>set (trace s). \<forall>d. payload e = Some d \<longrightarrow> d = hello)) \<and>
   (\<exists>s. main = Inr (0, s) \<and> (\<forall>e\<in>set (trace s). \<forall>d. payload e = Some d \<longrightarrow> d = hello))"
proof (intro conjI)
  show "produce t = Inr t' \<longrightarrow>
      (\<exists>new. trace t' = trace t @ new \<and> (\<exists>a. Ctor a hello \<in> set new) \<and>
         (\<forall>e\<in>set new. \<forall>d. payload e = Some d \<longrightarrow> d = hello))"
    using produce_payloads by blast
next
  from run_char [of cs] obtain s where
    s: "run cs = Inr s" "trace s = events_of False 0 cs"
    by blast
  then show "\<exists>s. run cs = Inr s \<and>
      (\<forall>e\<in>set (trace s). \<forall>d. payload e = Some d \<longrightarrow> d = hello)"
    using events_of_payload by auto
next
  from main_char obtain s where
    s: "main = Inr (0, s)"
    "trace s = Banner first_banner # honest_events 0 @ Banner second_banner # moocher_events 1"
    by blast
  have "\<forall>e\<in>set (trace s). \<forall>d. payload e = Some d \<longrightarrow> d = hello"
    by (auto simp: s(2) honest_events_def moocher_events_def)
  with s(1) show "\<exists>s. main = Inr (0, s) \<and>
      (\<forall>e\<in>set (trace s). \<forall>d. payload e = Some d \<longrightarrow> d = hello)"
    by blast
qed

theorem payload_always_hello_witness:
  "\<exists>t' new. produce initial = Inr t' \<and> trace t' = trace initial @ new \<and>
     (\<exists>a. Ctor a hello \<in> set new) \<and>
     BorrowerGot 0 hello \<in> set new \<and> payload (BorrowerGot 0 hello) = Some hello"
proof -
  let ?x = "initial\<lparr>heap := (heap initial)(fresh initial := None),
              fresh := Suc (fresh initial),
              trace := trace initial @ honest_events (fresh initial)\<rparr>"
  have p: "produce initial = Inr ?x"
    by (simp add: produce_honest initial_def Borrower_init_def Producer_init_def)
  with payload_always_hello [of initial ?x] obtain new where
    n: "trace ?x = trace initial @ new" "\<exists>a. Ctor a hello \<in> set new"
    by blast
  then have "new = honest_events 0"
    by (simp add: initial_def)
  then have "BorrowerGot 0 hello \<in> set new"
    by (simp add: honest_events_def)
  with p n show ?thesis
    by auto
qed

end
